theory Spec2Isabelle
  imports Main
begin

section \<open>The to-do list server (main.go) and the console variant\<close>

subsection \<open>Data model\<close>

text \<open>
  \<^verbatim>\<open>type Task struct { Description string; Status bool }\<close> (main.go, lines 13-16).
\<close>

record Task =
  Description :: string
  Status :: bool

text \<open>
  The global \<^verbatim>\<open>taskLists = make(map[string][]Task)\<close> (main.go, line 21). A key that is
  absent is \<open>None\<close>. Every slice stored in the map has a backing array of its own (no
  slice header is ever copied from one key to another, and no handler keeps a slice after
  it returns), so a slice is modelled by the list of its elements.
\<close>

type_synonym store = "string \<rightharpoonup> Task list"

text \<open>
  Reading \<^verbatim>\<open>taskLists[listName]\<close> without the \<^verbatim>\<open>exists\<close> flag gives the nil slice for
  an absent key; \<^verbatim>\<open>append\<close> and \<^verbatim>\<open>len\<close> treat nil as the empty slice.
\<close>

definition index_or_nil :: "store \<Rightarrow> string \<Rightarrow> Task list" where
  "index_or_nil taskLists listName =
     (case taskLists listName of None \<Rightarrow> [] | Some tasks \<Rightarrow> tasks)"

subsection \<open>Library functions used by the handlers\<close>

text \<open>
  \<^verbatim>\<open>strings.TrimPrefix(s, prefix)\<close>: \<open>s\<close> without the leading \<open>prefix\<close>, or \<open>s\<close> itself
  when it does not start with \<open>prefix\<close>.
\<close>

definition TrimPrefix :: "string \<Rightarrow> string \<Rightarrow> string" where
  "TrimPrefix s pre = (if take (length pre) s = pre then drop (length pre) s else s)"

text \<open>
  \<^verbatim>\<open>strings.Split(s, "/")\<close> for a separator of one byte: the substrings between the
  separators, one more than there are separators; the empty string gives one empty part.
\<close>

fun Split :: "string \<Rightarrow> char \<Rightarrow> string list" where
  "Split [] sep = [[]]"
| "Split (c # cs) sep =
     (if c = sep then [] # Split cs sep
      else (c # hd (Split cs sep)) # tl (Split cs sep))"

text \<open>
  \<^verbatim>\<open>strconv.Atoi\<close> (64-bit int): an optional sign, then one or more decimal digits and
  nothing else; a value outside the range of int is an error. \<open>None\<close> is
  \<^verbatim>\<open>err != nil\<close>.
\<close>

definition digit :: "char \<Rightarrow> nat option" where
  "digit ch = (let b = (of_char ch :: nat) in if 48 \<le> b \<and> b \<le> 57 then Some (b - 48) else None)"

fun digits :: "string \<Rightarrow> nat \<Rightarrow> nat option" where
  "digits [] n = Some n"
| "digits (ch # s) n = (case digit ch of None \<Rightarrow> None | Some d \<Rightarrow> digits s (n * 10 + d))"

definition Atoi :: "string \<Rightarrow> int option" where
  "Atoi s0 =
     (if s0 = [] then None
      else
        let neg = (hd s0 = CHR ''-'');
            s = (if hd s0 = CHR ''-'' \<or> hd s0 = CHR ''+'' then tl s0 else s0)
        in if s = [] then None
           else (case digits s 0 of
                   None \<Rightarrow> None
                 | Some n \<Rightarrow>
                     let v = (if neg then - int n else int n)
                     in if - (2 ^ 63) \<le> v \<and> v < 2 ^ 63 then Some v else None))"

text \<open>
  \<^verbatim>\<open>json.NewDecoder(r.Body).Decode(&t)\<close> belongs to encoding/json, not to the repository.
  A request body is represented by what decoding it into a \<open>Task\<close> does: it fails
  (\<open>Undecodable\<close>), or it assigns the fields that the body carries and leaves the others
  of \<open>t\<close> as they are (\<open>Fields\<close>; \<open>None\<close> for a field the body omits).
\<close>

datatype payload = Undecodable | Fields "string option" "bool option"

definition Decode :: "payload \<Rightarrow> Task \<Rightarrow> Task option" where
  "Decode b t =
     (case b of
        Undecodable \<Rightarrow> None
      | Fields d st \<Rightarrow>
          Some (t\<lparr>Description := (case d of None \<Rightarrow> Description t | Some v \<Rightarrow> v),
                  Status := (case st of None \<Rightarrow> Status t | Some v \<Rightarrow> v)\<rparr>))"

text \<open>\<^verbatim>\<open>var t Task\<close>: the zero value of the struct.\<close>

definition zero_Task :: Task where
  "zero_Task = \<lparr>Description = [], Status = False\<rparr>"

subsection \<open>Requests and responses\<close>

record request =
  Method :: string
  Path :: string
  Body :: payload

abbreviation MethodGet :: string where "MethodGet \<equiv> ''GET''"
abbreviation MethodPost :: string where "MethodPost \<equiv> ''POST''"
abbreviation MethodPut :: string where "MethodPut \<equiv> ''PUT''"
abbreviation MethodDelete :: string where "MethodDelete \<equiv> ''DELETE''"

abbreviation StatusBadRequest :: nat where "StatusBadRequest \<equiv> 400"
abbreviation StatusNotFound :: nat where "StatusNotFound \<equiv> 404"
abbreviation StatusMethodNotAllowed :: nat where "StatusMethodNotAllowed \<equiv> 405"
abbreviation StatusConflict :: nat where "StatusConflict \<equiv> 409"

text \<open>
  What a handler writes: \<^verbatim>\<open>http.Error(w, msg, code)\<close>, or \<^verbatim>\<open>writeJSON(w, data)\<close>
  (status 200) with one of the three kinds of data the handlers pass to it.
\<close>

datatype data =
    Messages "(string \<times> string) list"
  | TaskArray "Task list"
  | AllLists "string \<rightharpoonup> Task list"

datatype response = HttpError string nat | JSON data

definition writeJSON :: "data \<Rightarrow> response" where
  "writeJSON d = JSON d"

subsection \<open>The handlers\<close>

text \<open>
  Each handler runs with the mutex held around its access to the map; here a handler is
  a function from the map before the request to the map after it and the response.
\<close>

definition handleLists :: "request \<Rightarrow> store \<Rightarrow> store \<times> response" where
  "handleLists r taskLists =
     (if Method r = MethodGet then (taskLists, writeJSON (AllLists taskLists))
      else (taskLists, HttpError ''Method not allowed'' StatusMethodNotAllowed))"

definition handleListOperations :: "request \<Rightarrow> store \<Rightarrow> store \<times> response" where
  "handleListOperations r taskLists =
     (let path = TrimPrefix (Path r) ''/lists/'';
          parts = Split path CHR ''/''
      in
        if length parts < 1 \<or> parts ! 0 = [] then
          (taskLists, HttpError ''List name required'' StatusBadRequest)
        else
          let listName = parts ! 0 in
          if length parts = 1 \<and> Method r = MethodPost then
            (if taskLists listName \<noteq> None then
               (taskLists, HttpError ''Task list already exists'' StatusConflict)
             else
               (taskLists(listName \<mapsto> []),
                writeJSON (Messages [(''message'', ''Task list created''), (''list'', listName)])))
          else if length parts = 2 \<and> parts ! 1 = ''tasks'' \<and> Method r = MethodGet then
            (case taskLists listName of
               None \<Rightarrow> (taskLists, HttpError ''Task list not found'' StatusNotFound)
             | Some tasks \<Rightarrow> (taskLists, writeJSON (TaskArray tasks)))
          else if length parts = 2 \<and> parts ! 1 = ''tasks'' \<and> Method r = MethodPost then
            (case Decode (Body r) zero_Task of
               None \<Rightarrow> (taskLists, HttpError ''Invalid task data'' StatusBadRequest)
             | Some t \<Rightarrow>
                 (taskLists(listName \<mapsto> index_or_nil taskLists listName @ [t]),
                  writeJSON (Messages [(''message'', ''Task added''), (''task'', Description t)])))
          else if length parts = 3 \<and> parts ! 1 = ''tasks'' \<and> Method r = MethodPut then
            (case Atoi (parts ! 2) of
               None \<Rightarrow> (taskLists, HttpError ''Invalid task index'' StatusBadRequest)
             | Some index \<Rightarrow>
                 if index < 1 then (taskLists, HttpError ''Invalid task index'' StatusBadRequest)
                 else
                   (case taskLists listName of
                      None \<Rightarrow> (taskLists, HttpError ''Task list not found'' StatusNotFound)
                    | Some tasks \<Rightarrow>
                        if index > int (length tasks) then
                          (taskLists, HttpError ''Task index out of range'' StatusBadRequest)
                        else
                          let i = nat (index - 1);
                              tasks' = tasks[i := (tasks ! i)\<lparr>Status := \<not> Status (tasks ! i)\<rparr>]
                          in (taskLists(listName \<mapsto> tasks'),
                              writeJSON (Messages [(''message'', ''Task status toggled'')]))))
          else if length parts = 3 \<and> parts ! 1 = ''tasks'' \<and> Method r = MethodDelete then
            (case Atoi (parts ! 2) of
               None \<Rightarrow> (taskLists, HttpError ''Invalid task index'' StatusBadRequest)
             | Some index \<Rightarrow>
                 if index < 1 then (taskLists, HttpError ''Invalid task index'' StatusBadRequest)
                 else
                   (case taskLists listName of
                      None \<Rightarrow> (taskLists, HttpError ''Task list not found'' StatusNotFound)
                    | Some tasks \<Rightarrow>
                        if index > int (length tasks) then
                          (taskLists, HttpError ''Task index out of range'' StatusBadRequest)
                        else
                          (taskLists(listName \<mapsto>
                             take (nat (index - 1)) tasks @ drop (nat index) tasks),
                           writeJSON (Messages [(''message'', ''Task deleted'')]))))
          else (taskLists, HttpError ''Not found'' StatusNotFound))"

subsection \<open>Serving a sequence of requests\<close>

text \<open>
  \<^verbatim>\<open>main\<close> registers \<^verbatim>\<open>handleLists\<close> for the pattern \<^verbatim>\<open>/lists\<close> and
  \<^verbatim>\<open>handleListOperations\<close> for \<^verbatim>\<open>/lists/\<close> (main.go, lines 29-30). The pattern
  matching of the library's multiplexer is not modelled: a delivered request names the
  handler it was given to. Every access of a handler to the map happens with the mutex
  held until the handler returns, so the requests act on the map one after the other.
\<close>

datatype handler = HandleLists | HandleListOperations

fun dispatch :: "handler \<Rightarrow> request \<Rightarrow> store \<Rightarrow> store \<times> response" where
  "dispatch HandleLists r taskLists = handleLists r taskLists"
| "dispatch HandleListOperations r taskLists = handleListOperations r taskLists"

fun serve :: "(handler \<times> request) list \<Rightarrow> store \<Rightarrow> store \<times> response list" where
  "serve [] taskLists = (taskLists, [])"
| "serve ((h, r) # rs) taskLists =
     (let (taskLists', resp) = dispatch h r taskLists;
          (taskLists'', resps) = serve rs taskLists'
      in (taskLists'', resp # resps))"

subsection \<open>The requests of the route table\<close>

text \<open>
  A path segment as the handler obtains it from \<^verbatim>\<open>strings.Split(path, "/")\<close>: it holds
  no slash, and a list name (\<^verbatim>\<open>parts[0]\<close>) that passes the first check is not empty.
\<close>

definition segment :: "string \<Rightarrow> bool" where
  "segment p \<longleftrightarrow> p \<noteq> [] \<and> CHR ''/'' \<notin> set p"

text \<open>The requests named in the comments of the \<^verbatim>\<open>switch\<close> (main.go, lines 65-124).\<close>

abbreviation POST_list :: "string \<Rightarrow> payload \<Rightarrow> request" where
  "POST_list listName b \<equiv>
     \<lparr>Method = MethodPost, Path = ''/lists/'' @ listName, Body = b\<rparr>"

abbreviation GET_tasks :: "string \<Rightarrow> payload \<Rightarrow> request" where
  "GET_tasks listName b \<equiv>
     \<lparr>Method = MethodGet, Path = ''/lists/'' @ listName @ ''/tasks'', Body = b\<rparr>"

abbreviation POST_tasks :: "string \<Rightarrow> payload \<Rightarrow> request" where
  "POST_tasks listName b \<equiv>
     \<lparr>Method = MethodPost, Path = ''/lists/'' @ listName @ ''/tasks'', Body = b\<rparr>"

abbreviation PUT_task :: "string \<Rightarrow> string \<Rightarrow> payload \<Rightarrow> request" where
  "PUT_task listName p b \<equiv>
     \<lparr>Method = MethodPut, Path = ''/lists/'' @ listName @ ''/tasks/'' @ p, Body = b\<rparr>"

abbreviation DELETE_task :: "string \<Rightarrow> string \<Rightarrow> payload \<Rightarrow> request" where
  "DELETE_task listName p b \<equiv>
     \<lparr>Method = MethodDelete, Path = ''/lists/'' @ listName @ ''/tasks/'' @ p, Body = b\<rparr>"

abbreviation creates :: "string list \<Rightarrow> payload \<Rightarrow> (handler \<times> request) list" where
  "creates names b \<equiv> map (\<lambda>n. (HandleListOperations, POST_list n b)) names"

text \<open>The responses of the successful operations, as the handler writes them.\<close>

abbreviation created :: "string \<Rightarrow> response" where
  "created listName \<equiv>
     JSON (Messages [(''message'', ''Task list created''), (''list'', listName)])"

abbreviation added :: "string \<Rightarrow> response" where
  "added description \<equiv> JSON (Messages [(''message'', ''Task added''), (''task'', description)])"

abbreviation toggled :: response where
  "toggled \<equiv> JSON (Messages [(''message'', ''Task status toggled'')])"

abbreviation deleted :: response where
  "deleted \<equiv> JSON (Messages [(''message'', ''Task deleted'')])"

subsection \<open>The console variant\<close>

text \<open>
  The console program keeps \<^verbatim>\<open>map[string][]string\<close>. The scanner is the list of the
  input lines still to be read: \<^verbatim>\<open>scanner.Scan(); scanner.Text()\<close> takes the next
  line, and gives the empty string at the end of the input. What is printed is returned
  as the list of the calls to \<^verbatim>\<open>fmt.Print\<close> and \<^verbatim>\<open>fmt.Println\<close>.
\<close>

type_synonym console_store = "string \<rightharpoonup> string list"

type_synonym scanner = "string list"

datatype out = Print string | Println string

definition Scan :: "scanner \<Rightarrow> string \<times> scanner" where
  "Scan sc = (case sc of [] \<Rightarrow> ([], []) | line # rest \<Rightarrow> (line, rest))"

definition createTaskList :: "scanner \<Rightarrow> console_store \<Rightarrow> scanner \<times> console_store \<times> out list" where
  "createTaskList sc taskLists =
     (let (listName, sc') = Scan sc in
      if taskLists listName \<noteq> None then
        (sc', taskLists,
         [Print ''Enter name of new task list: '', Println ''Task list already exists.''])
      else
        (sc', taskLists(listName \<mapsto> []),
         [Print ''Enter name of new task list: '',
          Println (''Task list created: '' @ listName)]))"

section \<open>Properties\<close>

subsection \<open>Path parsing\<close>

lemma Split_no_sep: "sep \<notin> set a \<Longrightarrow> Split a sep = [a]"
  by (induction a) auto

lemma Split_append: "sep \<notin> set a \<Longrightarrow> Split (a @ sep # rest) sep = a # Split rest sep"
  by (induction a) auto

lemma TrimPrefix_append: "TrimPrefix (pre @ s) pre = s"
  by (simp add: TrimPrefix_def)

lemma digit_not_slash: "digit CHR ''/'' = None"
  by (simp add: digit_def)

lemma digits_no_slash: "digits s n = Some m \<Longrightarrow> CHR ''/'' \<notin> set s"
  by (induction s arbitrary: n) (auto simp: digit_not_slash split: option.splits)

lemma Atoi_no_slash: "Atoi p = Some i \<Longrightarrow> CHR ''/'' \<notin> set p"
  by (cases p)
     (auto simp: Atoi_def Let_def digit_not_slash split: if_splits option.splits
           dest: digits_no_slash)

lemma parts1:
  "segment n \<Longrightarrow> Split (TrimPrefix (''/lists/'' @ n) ''/lists/'') CHR ''/'' = [n]"
  by (subst TrimPrefix_append) (simp add: Split_no_sep segment_def)

lemma parts2:
  "segment n \<Longrightarrow>
   Split (TrimPrefix (''/lists/'' @ n @ ''/tasks'') ''/lists/'') CHR ''/'' = [n, ''tasks'']"
  by (subst TrimPrefix_append)
     (use Split_append[of "CHR ''/''" n "''tasks''"] in \<open>simp add: segment_def\<close>)

lemma parts3:
  "segment n \<Longrightarrow> CHR ''/'' \<notin> set p \<Longrightarrow>
   Split (TrimPrefix (''/lists/'' @ n @ ''/tasks/'' @ p) ''/lists/'') CHR ''/''
     = [n, ''tasks'', p]"
  by (subst TrimPrefix_append)
     (use Split_append[of "CHR ''/''" n "''tasks/'' @ p"]
          Split_append[of "CHR ''/''" "''tasks''" p]
       in \<open>simp add: segment_def Split_no_sep\<close>)

subsection \<open>What the handler does on each route\<close>

lemma route_create:
  assumes "segment n"
  shows "handleListOperations (POST_list n b) s =
           (if s n \<noteq> None then (s, HttpError ''Task list already exists'' StatusConflict)
            else (s(n \<mapsto> []), created n))"
proof -
  have P: "Split (TrimPrefix (Path (POST_list n b)) ''/lists/'') CHR ''/'' = [n]"
    using parts1[OF assms] by simp
  show ?thesis
    unfolding handleListOperations_def Let_def P
    using assms by (auto simp: segment_def writeJSON_def split: option.splits)
qed

lemma route_get:
  assumes "segment n"
  shows "handleListOperations (GET_tasks n b) s =
           (case s n of None \<Rightarrow> (s, HttpError ''Task list not found'' StatusNotFound)
            | Some tasks \<Rightarrow> (s, JSON (TaskArray tasks)))"
proof -
  have P: "Split (TrimPrefix (Path (GET_tasks n b)) ''/lists/'') CHR ''/'' = [n, ''tasks'']"
    using parts2[OF assms] by simp
  show ?thesis
    unfolding handleListOperations_def Let_def P
    using assms by (auto simp: segment_def writeJSON_def split: option.splits)
qed

lemma route_add:
  assumes "segment n"
  shows "handleListOperations (POST_tasks n b) s =
           (case Decode b zero_Task of
              None \<Rightarrow> (s, HttpError ''Invalid task data'' StatusBadRequest)
            | Some t \<Rightarrow> (s(n \<mapsto> index_or_nil s n @ [t]), added (Description t)))"
proof -
  have P: "Split (TrimPrefix (Path (POST_tasks n b)) ''/lists/'') CHR ''/'' = [n, ''tasks'']"
    using parts2[OF assms] by simp
  show ?thesis
    unfolding handleListOperations_def Let_def P
    using assms by (auto simp: segment_def writeJSON_def split: option.splits)
qed

lemma route_toggle:
  assumes "segment n" and "CHR ''/'' \<notin> set p"
  shows "handleListOperations (PUT_task n p b) s =
           (case Atoi p of
              None \<Rightarrow> (s, HttpError ''Invalid task index'' StatusBadRequest)
            | Some index \<Rightarrow>
                if index < 1 then (s, HttpError ''Invalid task index'' StatusBadRequest)
                else
                  (case s n of
                     None \<Rightarrow> (s, HttpError ''Task list not found'' StatusNotFound)
                   | Some tasks \<Rightarrow>
                       if index > int (length tasks) then
                         (s, HttpError ''Task index out of range'' StatusBadRequest)
                       else
                         (s(n \<mapsto> tasks[nat (index - 1) :=
                              (tasks ! nat (index - 1))
                                \<lparr>Status := \<not> Status (tasks ! nat (index - 1))\<rparr>]),
                          toggled)))"
proof -
  have P: "Split (TrimPrefix (Path (PUT_task n p b)) ''/lists/'') CHR ''/'' = [n, ''tasks'', p]"
    using parts3[OF assms] by simp
  show ?thesis
    unfolding handleListOperations_def Let_def P
    using assms by (auto simp: segment_def writeJSON_def split: option.splits)
qed

lemma route_delete:
  assumes "segment n" and "CHR ''/'' \<notin> set p"
  shows "handleListOperations (DELETE_task n p b) s =
           (case Atoi p of
              None \<Rightarrow> (s, HttpError ''Invalid task index'' StatusBadRequest)
            | Some index \<Rightarrow>
                if index < 1 then (s, HttpError ''Invalid task index'' StatusBadRequest)
                else
                  (case s n of
                     None \<Rightarrow> (s, HttpError ''Task list not found'' StatusNotFound)
                   | Some tasks \<Rightarrow>
                       if index > int (length tasks) then
                         (s, HttpError ''Task index out of range'' StatusBadRequest)
                       else
                         (s(n \<mapsto> take (nat (index - 1)) tasks @ drop (nat index) tasks),
                          deleted)))"
proof -
  have P: "Split (TrimPrefix (Path (DELETE_task n p b)) ''/lists/'') CHR ''/'' = [n, ''tasks'', p]"
    using parts3[OF assms] by simp
  show ?thesis
    unfolding handleListOperations_def Let_def P
    using assms by (auto simp: segment_def writeJSON_def split: option.splits)
qed

lemma fst_handleLists: "fst (handleLists r s) = s"
  by (simp add: handleLists_def)

lemma dom_handleListOperations: "dom s \<subseteq> dom (fst (handleListOperations r s))"
  unfolding handleListOperations_def Let_def
  by (auto split: option.splits)

subsection \<open>Sequences of requests\<close>

lemma dom_dispatch: "dom s \<subseteq> dom (fst (dispatch h r s))"
  by (cases h) (simp_all add: fst_handleLists dom_handleListOperations)

lemma dom_serve: "dom s \<subseteq> dom (fst (serve rs s))"
proof (induction rs arbitrary: s)
  case Nil
  then show ?case by simp
next
  case (Cons x rs)
  obtain h r where x: "x = (h, r)" by (cases x)
  have "dom s \<subseteq> dom (fst (dispatch h r s))"
    by (rule dom_dispatch)
  also have "\<dots> \<subseteq> dom (fst (serve rs (fst (dispatch h r s))))"
    by (rule Cons.IH)
  finally show ?case
    by (simp add: x split_beta)
qed

lemma fst_serve_append: "fst (serve (rs @ rs') s) = fst (serve rs' (fst (serve rs s)))"
  by (induction rs arbitrary: s) (auto simp: split_beta)

lemmas route_create_cons = route_create[unfolded append.simps]

lemma serve_creates_dom:
  assumes "\<forall>m \<in> set names. segment m"
  shows "set names \<subseteq> dom (fst (serve (creates names b) s))"
  using assms
proof (induction names arbitrary: s)
  case Nil
  then show ?case by simp
next
  case (Cons m names)
  let ?s' = "fst (handleListOperations (POST_list m b) s)"
  have seg: "segment m" using Cons.prems by simp
  have "m \<in> dom ?s'"
    unfolding route_create[OF seg] by auto
  then have "m \<in> dom (fst (serve (creates names b) ?s'))"
    using dom_serve by blast
  moreover have "set names \<subseteq> dom (fst (serve (creates names b) ?s'))"
    using Cons by simp
  ultimately show ?case
    by (simp add: split_beta)
qed

lemma count_created:
  assumes "\<forall>m \<in> set names. segment m"
  shows "length (filter (\<lambda>r. r = created n) (snd (serve (creates names b) s)))
           = (if n \<in> set names \<and> s n = None then 1 else 0)"
  using assms
proof (induction names arbitrary: s)
  case Nil
  then show ?case by simp
next
  case (Cons m names)
  have seg: "segment m" using Cons.prems by simp
  have IH: "length (filter (\<lambda>r. r = created n) (snd (serve (creates names b) s')))
           = (if n \<in> set names \<and> s' n = None then 1 else 0)" for s'
    using Cons by simp
  show ?case
  proof (cases "s m = None")
    case True
    then show ?thesis
      using IH[of "s(m \<mapsto> [])"] by (auto simp: split_beta route_create_cons[OF seg])
  next
    case False
    then show ?thesis
      using IH[of s] by (auto simp: split_beta route_create_cons[OF seg])
  qed
qed

section \<open>The claims\<close>

subsection \<open>C2: index validation of toggle and delete\<close>

text \<open>
  Claim C2. The index of a toggle or delete request is the integer that
  \<^verbatim>\<open>strconv.Atoi\<close> reads from the third path segment. For a list of \<open>N\<close> tasks, both
  operations succeed exactly when \<open>1 \<le> index \<le> N\<close>. An index of 0 or below is answered
  with 400 "Invalid task index" whatever the map holds (the map is not looked at, and
  not changed); an index above \<open>N\<close> is answered with 400 "Task index out of range" and
  the map is returned as it was.
\<close>

theorem C2_index_validation:
  assumes "segment listName" and "Atoi p = Some index" and "taskLists listName = Some tasks"
  shows "(index < 1 \<longrightarrow>
            (\<forall>s. handleListOperations (PUT_task listName p b) s
                   = (s, HttpError ''Invalid task index'' StatusBadRequest)) \<and>
            (\<forall>s. handleListOperations (DELETE_task listName p b) s
                   = (s, HttpError ''Invalid task index'' StatusBadRequest)))
       \<and> (int (length tasks) < index \<longrightarrow>
            handleListOperations (PUT_task listName p b) taskLists
              = (taskLists, HttpError ''Task index out of range'' StatusBadRequest) \<and>
            handleListOperations (DELETE_task listName p b) taskLists
              = (taskLists, HttpError ''Task index out of range'' StatusBadRequest))
       \<and> (snd (handleListOperations (PUT_task listName p b) taskLists) = toggled
            \<longleftrightarrow> 1 \<le> index \<and> index \<le> int (length tasks))
       \<and> (snd (handleListOperations (DELETE_task listName p b) taskLists) = deleted
            \<longleftrightarrow> 1 \<le> index \<and> index \<le> int (length tasks))"
proof -
  have p: "CHR ''/'' \<notin> set p"
    using assms(2) by (rule Atoi_no_slash)
  show ?thesis
    unfolding route_toggle[OF assms(1) p] route_delete[OF assms(1) p]
    using assms(2,3) by simp
qed

theorem C2_index_validation_witness:
  "handleListOperations (PUT_task ''work'' ''0'' Undecodable) Map.empty
     = (Map.empty, HttpError ''Invalid task index'' StatusBadRequest)
   \<and> handleListOperations (DELETE_task ''work'' ''-3'' Undecodable) Map.empty
     = (Map.empty, HttpError ''Invalid task index'' StatusBadRequest)
   \<and> snd (handleListOperations (DELETE_task ''work'' ''5'' Undecodable)
       [''work'' \<mapsto> [\<lparr>Description = ''buy milk'', Status = False\<rparr>,
                      \<lparr>Description = ''call bob'', Status = False\<rparr>]])
     = HttpError ''Task index out of range'' StatusBadRequest
   \<and> snd (handleListOperations (PUT_task ''work'' ''2'' Undecodable)
       [''work'' \<mapsto> [\<lparr>Description = ''buy milk'', Status = False\<rparr>,
                      \<lparr>Description = ''call bob'', Status = False\<rparr>]])
     = toggled"
proof -
  let ?s = "[''work'' \<mapsto> [\<lparr>Description = ''buy milk'', Status = False\<rparr>,
                      \<lparr>Description = ''call bob'', Status = False\<rparr>]]"
  have seg: "segment ''work''" by (simp add: segment_def)
  have s: "?s ''work'' = Some [\<lparr>Description = ''buy milk'', Status = False\<rparr>,
                      \<lparr>Description = ''call bob'', Status = False\<rparr>]" by simp
  have a0: "Atoi ''0'' = Some 0" and a3: "Atoi ''-3'' = Some (-3)"
    and a5: "Atoi ''5'' = Some 5" and a2: "Atoi ''2'' = Some 2"
    by (simp_all add: Atoi_def digit_def)
  note C2 = C2_index_validation[where listName = "''work''" and taskLists = ?s and b = Undecodable,
                OF seg _ s]
  show ?thesis
    using C2[OF a0] C2[OF a3] C2[OF a5] C2[OF a2]
    by simp
qed

subsection \<open>C4: delete removes one task and closes the gap\<close>

text \<open>
  Claim C4. For a list of \<open>N\<close> tasks and an index with \<open>1 \<le> index \<le> N\<close>, the delete
  request leaves under the list's name the tasks before position \<open>index\<close> followed by the
  tasks after it: the length is \<open>N - 1\<close>, the tasks before the position keep their
  places, and each later task moves one place down (the task that was at position
  \<open>index + 1\<close> is at position \<open>index\<close>). Positions of the lists are counted from 0 here,
  so position \<open>index\<close> of the request is \<open>nat index - 1\<close>.
\<close>

theorem C4_delete_closes_gap:
  assumes "segment listName" and "Atoi p = Some index" and "taskLists listName = Some tasks"
    and "1 \<le> index" and "index \<le> int (length tasks)"
  shows "\<exists>tasks'.
           fst (handleListOperations (DELETE_task listName p b) taskLists) listName = Some tasks'
         \<and> tasks' = take (nat index - 1) tasks @ drop (nat index) tasks
         \<and> length tasks' = length tasks - 1
         \<and> (\<forall>j < length tasks'.
               tasks' ! j = (if j < nat index - 1 then tasks ! j else tasks ! Suc j))"
proof -
  have p: "CHR ''/'' \<notin> set p"
    using assms(2) by (rule Atoi_no_slash)
  let ?i = "nat index - 1"
  let ?tasks' = "take ?i tasks @ drop (nat index) tasks"
  have i: "nat (index - 1) = ?i" "nat index = Suc ?i" "?i < length tasks"
    using assms(4,5) by auto
  have store: "fst (handleListOperations (DELETE_task listName p b) taskLists) listName
                 = Some ?tasks'"
    unfolding route_delete[OF assms(1) p]
    using assms(2-5) i by simp
  have len: "length ?tasks' = length tasks - 1"
    using i by simp
  have nth: "?tasks' ! j = (if j < ?i then tasks ! j else tasks ! Suc j)"
    if "j < length ?tasks'" for j
    using that i by (auto simp: nth_append)
  show ?thesis
    using store len nth by blast
qed

theorem C4_delete_closes_gap_witness:
  "fst (handleListOperations (DELETE_task ''work'' ''2'' Undecodable)
         [''work'' \<mapsto> [\<lparr>Description = ''a'', Status = False\<rparr>,
                        \<lparr>Description = ''b'', Status = True\<rparr>,
                        \<lparr>Description = ''c'', Status = False\<rparr>]]) ''work''
     = Some [\<lparr>Description = ''a'', Status = False\<rparr>, \<lparr>Description = ''c'', Status = False\<rparr>]"
proof -
  let ?ts = "[\<lparr>Description = ''a'', Status = False\<rparr>,
                        \<lparr>Description = ''b'', Status = True\<rparr>,
                        \<lparr>Description = ''c'', Status = False\<rparr>]"
  have seg: "segment ''work''" by (simp add: segment_def)
  have a2: "Atoi ''2'' = Some 2" by (simp add: Atoi_def digit_def)
  have s: "[''work'' \<mapsto> ?ts] ''work'' = Some ?ts" by simp
  have lo: "(1::int) \<le> 2" and hi: "(2::int) \<le> int (length ?ts)" by simp_all
  show ?thesis
    using C4_delete_closes_gap[where taskLists = "[''work'' \<mapsto> ?ts]" and b = Undecodable,
            OF seg a2 s lo hi]
    by simp
qed

subsection \<open>C5: toggling twice\<close>

text \<open>
  Claim C5. For an existing list and an index with \<open>1 \<le> index \<le> N\<close>, the toggle request
  succeeds and negates the status of the task at that position; the same request once
  more succeeds again and gives back the map as it was before the first, so the status
  of the task has its original value.
\<close>

theorem C5_toggle_twice:
  assumes "segment listName" and "Atoi p = Some index" and "taskLists listName = Some tasks"
    and "1 \<le> index" and "index \<le> int (length tasks)"
  shows "\<exists>s1 tasks1.
           handleListOperations (PUT_task listName p b) taskLists = (s1, toggled)
         \<and> s1 listName = Some tasks1
         \<and> Status (tasks1 ! (nat index - 1)) = (\<not> Status (tasks ! (nat index - 1)))
         \<and> handleListOperations (PUT_task listName p b) s1 = (taskLists, toggled)"
proof -
  have p: "CHR ''/'' \<notin> set p"
    using assms(2) by (rule Atoi_no_slash)
  let ?i = "nat index - 1"
  let ?tasks1 = "tasks[?i := (tasks ! ?i)\<lparr>Status := \<not> Status (tasks ! ?i)\<rparr>]"
  let ?s1 = "taskLists(listName \<mapsto> ?tasks1)"
  have i: "nat (index - 1) = ?i" "?i < length tasks"
    using assms(4,5) by auto
  have step1: "handleListOperations (PUT_task listName p b) taskLists = (?s1, toggled)"
    unfolding route_toggle[OF assms(1) p]
    using assms(2-5) i by simp
  have restore: "?tasks1[?i := (?tasks1 ! ?i)\<lparr>Status := \<not> Status (?tasks1 ! ?i)\<rparr>] = tasks"
    using i by (simp add: list_update_same_conv)
  have "?s1(listName \<mapsto> tasks) = taskLists"
    using assms(3) by (simp add: fun_upd_idem)
  then have step2: "handleListOperations (PUT_task listName p b) ?s1 = (taskLists, toggled)"
    unfolding route_toggle[OF assms(1) p]
    using assms(2,4,5) i restore by simp
  have status: "Status (?tasks1 ! ?i) = (\<not> Status (tasks ! ?i))"
    using i by simp
  show ?thesis
    using step1 step2 status by (intro exI[of _ ?s1] exI[of _ ?tasks1]) simp
qed

theorem C5_toggle_twice_witness:
  "fst (handleListOperations (PUT_task ''work'' ''1'' Undecodable)
     (fst (handleListOperations (PUT_task ''work'' ''1'' Undecodable)
        [''work'' \<mapsto> [\<lparr>Description = ''buy milk'', Status = False\<rparr>]])))
   = [''work'' \<mapsto> [\<lparr>Description = ''buy milk'', Status = False\<rparr>]]"
proof -
  let ?ts = "[\<lparr>Description = ''buy milk'', Status = False\<rparr>]"
  have seg: "segment ''work''" by (simp add: segment_def)
  have a1: "Atoi ''1'' = Some 1" by (simp add: Atoi_def digit_def)
  have s: "[''work'' \<mapsto> ?ts] ''work'' = Some ?ts" by simp
  have lo: "(1::int) \<le> 1" and hi: "(1::int) \<le> int (length ?ts)" by simp_all
  show ?thesis
    using C5_toggle_twice[where taskLists = "[''work'' \<mapsto> ?ts]" and b = Undecodable,
            OF seg a1 s lo hi]
    by auto
qed

subsection \<open>C10: what a toggle leaves alone\<close>

text \<open>
  Claim C10. A successful toggle at \<open>index\<close> changes the status of the task at that
  position and nothing else: that task keeps its description, the list keeps its length,
  every other task of the list is the same at the same position, and every other list of
  the map is as before.
\<close>

theorem C10_toggle_frame:
  assumes "segment listName" and "Atoi p = Some index" and "taskLists listName = Some tasks"
    and "1 \<le> index" and "index \<le> int (length tasks)"
  shows "\<exists>tasks'.
           fst (handleListOperations (PUT_task listName p b) taskLists) listName = Some tasks'
         \<and> length tasks' = length tasks
         \<and> Description (tasks' ! (nat index - 1)) = Description (tasks ! (nat index - 1))
         \<and> Status (tasks' ! (nat index - 1)) = (\<not> Status (tasks ! (nat index - 1)))
         \<and> (\<forall>j < length tasks. j \<noteq> nat index - 1 \<longrightarrow> tasks' ! j = tasks ! j)
         \<and> (\<forall>other. other \<noteq> listName \<longrightarrow>
               fst (handleListOperations (PUT_task listName p b) taskLists) other
                 = taskLists other)"
proof -
  have p: "CHR ''/'' \<notin> set p"
    using assms(2) by (rule Atoi_no_slash)
  let ?i = "nat index - 1"
  let ?tasks' = "tasks[?i := (tasks ! ?i)\<lparr>Status := \<not> Status (tasks ! ?i)\<rparr>]"
  have i: "nat (index - 1) = ?i" "?i < length tasks"
    using assms(4,5) by auto
  have store: "fst (handleListOperations (PUT_task listName p b) taskLists)
                 = taskLists(listName \<mapsto> ?tasks')"
    unfolding route_toggle[OF assms(1) p]
    using assms(2-5) i by simp
  show ?thesis
    unfolding store using i by (intro exI[of _ ?tasks']) simp
qed

theorem C10_toggle_frame_witness:
  "fst (handleListOperations (PUT_task ''work'' ''1'' Undecodable)
         [''work'' \<mapsto> [\<lparr>Description = ''buy milk'', Status = False\<rparr>,
                        \<lparr>Description = ''call bob'', Status = False\<rparr>],
          ''home'' \<mapsto> [\<lparr>Description = ''sweep'', Status = True\<rparr>]]) ''home''
     = Some [\<lparr>Description = ''sweep'', Status = True\<rparr>]"
proof -
  let ?ts = "[\<lparr>Description = ''buy milk'', Status = False\<rparr>,
              \<lparr>Description = ''call bob'', Status = False\<rparr>]"
  let ?s = "[''work'' \<mapsto> ?ts, ''home'' \<mapsto> [\<lparr>Description = ''sweep'', Status = True\<rparr>]]"
  have seg: "segment ''work''" by (simp add: segment_def)
  have a1: "Atoi ''1'' = Some 1" by (simp add: Atoi_def digit_def)
  have s: "?s ''work'' = Some ?ts" by simp
  have lo: "(1::int) \<le> 1" and hi: "(1::int) \<le> int (length ?ts)" by simp_all
  show ?thesis
    using C10_toggle_frame[where taskLists = ?s and b = Undecodable, OF seg a1 s lo hi]
    by auto
qed

subsection \<open>C6: a task that was added is the last one fetched\<close>

text \<open>
  Claim C6. For every task \<open>t\<close>, after the add request whose body carries the two
  fields of \<open>t\<close>, the request for the tasks of the same list answers with the tasks the
  list had before followed by \<open>t\<close>: the last element is \<open>t\<close>, with the description and
  the status that were sent.
\<close>

theorem C6_append_then_fetch:
  assumes "segment listName"
  shows "\<exists>tasks'.
           snd (handleListOperations (GET_tasks listName b')
                  (fst (handleListOperations
                          (POST_tasks listName (Fields (Some (Description t)) (Some (Status t))))
                          taskLists)))
             = JSON (TaskArray tasks')
         \<and> tasks' = index_or_nil taskLists listName @ [t]
         \<and> last tasks' = t
         \<and> Description (last tasks') = Description t
         \<and> Status (last tasks') = Status t"
  unfolding route_add[OF assms] route_get[OF assms]
  by (simp add: Decode_def zero_Task_def)

theorem C6_append_then_fetch_witness:
  "snd (handleListOperations (GET_tasks ''work'' Undecodable)
          (fst (handleListOperations
                   (POST_tasks ''work'' (Fields (Some ''call bob'') (Some True)))
                   [''work'' \<mapsto> [\<lparr>Description = ''buy milk'', Status = False\<rparr>]])))
     = JSON (TaskArray [\<lparr>Description = ''buy milk'', Status = False\<rparr>,
                        \<lparr>Description = ''call bob'', Status = True\<rparr>])"
proof -
  have seg: "segment ''work''" by (simp add: segment_def)
  show ?thesis
    using C6_append_then_fetch[OF seg, of Undecodable "\<lparr>Description = ''call bob'', Status = True\<rparr>"
            "[''work'' \<mapsto> [\<lparr>Description = ''buy milk'', Status = False\<rparr>]]"]
    by (simp add: index_or_nil_def)
qed

subsection \<open>C7: a body without status, an empty description\<close>

text \<open>
  Claim C7. When the body of an add request sets no status, the task appended has
  status \<open>False\<close> (the zero value of \<^verbatim>\<open>var t Task\<close> is left as it is); and a body
  whose description is the empty string is accepted: the request succeeds and appends a
  task with the empty description.
\<close>

theorem C7_status_defaults_to_false:
  assumes "segment listName"
  shows "handleListOperations (POST_tasks listName (Fields d None)) taskLists
           = (taskLists(listName \<mapsto>
                index_or_nil taskLists listName
                  @ [\<lparr>Description = (case d of None \<Rightarrow> [] | Some v \<Rightarrow> v), Status = False\<rparr>]),
              added (case d of None \<Rightarrow> [] | Some v \<Rightarrow> v))
       \<and> handleListOperations (POST_tasks listName (Fields (Some []) st)) taskLists
           = (taskLists(listName \<mapsto>
                index_or_nil taskLists listName
                  @ [\<lparr>Description = [], Status = (case st of None \<Rightarrow> False | Some v \<Rightarrow> v)\<rparr>]),
              added [])"
  unfolding route_add[OF assms]
  by (simp add: Decode_def zero_Task_def split: option.splits)

theorem C7_status_defaults_to_false_witness:
  "fst (handleListOperations (POST_tasks ''work'' (Fields (Some []) None)) [''work'' \<mapsto> []]) ''work''
     = Some [\<lparr>Description = [], Status = False\<rparr>]
   \<and> snd (handleListOperations (POST_tasks ''work'' (Fields (Some []) None)) [''work'' \<mapsto> []])
     = added []"
proof -
  have seg: "segment ''work''" by (simp add: segment_def)
  show ?thesis
    using C7_status_defaults_to_false[OF seg, of "Some []" "[''work'' \<mapsto> []]" None]
    by (simp add: index_or_nil_def)
qed

subsection \<open>C1: adding a task to a list that does not exist\<close>

text \<open>
  Claim C1 says that an add request for a name absent from the map is answered with 404
  and leaves the map unchanged. The branch of the handler (main.go, lines 88-98) does
  not look the name up: on the empty map, the add request for the list \<open>ghost\<close> succeeds
  and leaves the map with a list \<open>ghost\<close> of one task.
\<close>

theorem C1_add_to_absent_list:
  "fst (handleListOperations (POST_tasks ''ghost'' (Fields (Some ''x'') (Some False))) Map.empty)
      ''ghost''
     = Some [\<lparr>Description = ''x'', Status = False\<rparr>]
   \<and> snd (handleListOperations (POST_tasks ''ghost'' (Fields (Some ''x'') (Some False))) Map.empty)
     = added ''x''"
  by (simp add: handleListOperations_def TrimPrefix_def Let_def Decode_def zero_Task_def
        index_or_nil_def writeJSON_def)

subsection \<open>C9: no request removes a list\<close>

text \<open>
  Claim C9. Whatever requests are served, to either handler and of any method, path and
  body, a list name that is in the map at some moment is in the map after every
  request that follows: the set of list names only grows.
\<close>

theorem C9_lists_are_never_removed:
  assumes "listName \<in> dom (fst (serve rs taskLists))"
  shows "listName \<in> dom (fst (serve (rs @ rs') taskLists))"
  using assms dom_serve[of "fst (serve rs taskLists)" rs'] 
  by (auto simp: fst_serve_append)

theorem C9_lists_are_never_removed_witness:
  "''work'' \<in> dom (fst (serve
      ([(HandleListOperations, POST_list ''work'' Undecodable)]
       @ [(HandleListOperations, DELETE_task ''work'' ''1'' Undecodable),
          (HandleLists, \<lparr>Method = MethodGet, Path = ''/lists'', Body = Undecodable\<rparr>),
          (HandleListOperations, \<lparr>Method = MethodDelete, Path = ''/lists/work'', Body = Undecodable\<rparr>)])
      Map.empty))"
proof -
  have seg: "segment ''work''" by (simp add: segment_def)
  have "''work'' \<in> dom (fst (serve [(HandleListOperations, POST_list ''work'' Undecodable)] Map.empty))"
    unfolding serve.simps dispatch.simps route_create[OF seg] by simp
  then show ?thesis
    by (rule C9_lists_are_never_removed)
qed

subsection \<open>C3: a name is created at most once\<close>

text \<open>
  Claim C3. A create request for a name that the map holds is answered with 409
  "Task list already exists" and the map, with the tasks of that list, is returned as it
  was. After any sequence of create requests that has a create of the name, one more
  create of that name is answered so; and in the responses to any sequence of create
  requests, the success response for a given name occurs at most once. The console's
  \<^verbatim>\<open>createTaskList\<close> likewise leaves an existing list as it is and prints that it
  exists.
\<close>

theorem C3_create_at_most_once:
  assumes "\<forall>m \<in> set names. segment m" and "segment listName"
  shows "(taskLists listName \<noteq> None \<longrightarrow>
            handleListOperations (POST_list listName b) taskLists
              = (taskLists, HttpError ''Task list already exists'' StatusConflict))
       \<and> (listName \<in> set names \<longrightarrow>
            handleListOperations (POST_list listName b)
                (fst (serve (creates names b) taskLists))
              = (fst (serve (creates names b) taskLists),
                 HttpError ''Task list already exists'' StatusConflict))
       \<and> length (filter (\<lambda>r. r = created listName)
                   (snd (serve (creates names b) taskLists))) \<le> 1
       \<and> (consoleLists listName \<noteq> None \<longrightarrow>
            createTaskList (listName # sc) consoleLists
              = (sc, consoleLists,
                 [Print ''Enter name of new task list: '', Println ''Task list already exists.'']))"
proof -
  have a: "handleListOperations (POST_list listName b) s
             = (s, HttpError ''Task list already exists'' StatusConflict)"
    if "s listName \<noteq> None" for s
    unfolding route_create[OF assms(2)] using that by simp
  have b: "fst (serve (creates names b) taskLists) listName \<noteq> None" if "listName \<in> set names"
    using serve_creates_dom[OF assms(1), of b taskLists] that by auto
  have c: "length (filter (\<lambda>r. r = created listName)
                   (snd (serve (creates names b) taskLists))) \<le> 1"
    using count_created[OF assms(1), of listName b taskLists] by simp
  have d: "createTaskList (listName # sc) consoleLists
              = (sc, consoleLists,
                 [Print ''Enter name of new task list: '', Println ''Task list already exists.''])"
    if "consoleLists listName \<noteq> None"
    using that by (simp add: createTaskList_def Scan_def)
  show ?thesis
    using a b c d by blast
qed

theorem C3_create_at_most_once_witness:
  "handleListOperations (POST_list ''work'' Undecodable)
       [''work'' \<mapsto> [\<lparr>Description = ''buy milk'', Status = True\<rparr>]]
     = ([''work'' \<mapsto> [\<lparr>Description = ''buy milk'', Status = True\<rparr>]],
        HttpError ''Task list already exists'' StatusConflict)
   \<and> handleListOperations (POST_list ''work'' Undecodable)
         (fst (serve (creates [''work'', ''home'', ''work''] Undecodable) Map.empty))
     = (fst (serve (creates [''work'', ''home'', ''work''] Undecodable) Map.empty),
        HttpError ''Task list already exists'' StatusConflict)
   \<and> length (filter (\<lambda>r. r = created ''work'')
               (snd (serve (creates [''work'', ''home'', ''work''] Undecodable) Map.empty))) \<le> 1
   \<and> createTaskList [''work'', ''1''] [''work'' \<mapsto> [''buy milk'']]
     = ([''1''], [''work'' \<mapsto> [''buy milk'']],
        [Print ''Enter name of new task list: '', Println ''Task list already exists.''])"
proof -
  have segs: "\<forall>m \<in> set [''work'', ''home'', ''work'']. segment m" and seg: "segment ''work''"
    by (simp_all add: segment_def)
  show ?thesis
    using C3_create_at_most_once[OF segs seg,
            where taskLists = "[''work'' \<mapsto> [\<lparr>Description = ''buy milk'', Status = True\<rparr>]]"
              and b = Undecodable and consoleLists = "[''work'' \<mapsto> [''buy milk'']]"
              and sc = "[''1'']"]
          C3_create_at_most_once[OF segs seg,
            where taskLists = Map.empty
              and b = Undecodable and consoleLists = "[''work'' \<mapsto> [''buy milk'']]"
              and sc = "[''1'']"]
    by simp
qed

end
